theory Spec2Isabelle
  imports Main "HOL-Library.Word"
begin

section \<open>The hot-word detector wrapper of \<^verbatim>\<open>index.js\<close>\<close>

text \<open>
  \<^verbatim>\<open>index.js\<close> wraps an audio recorder and a snowboy detector behind one event
  emitter class, \<^verbatim>\<open>HotwordDetector\<close>. The module keeps two plain objects
  (\<^verbatim>\<open>defaultModel\<close>, \<^verbatim>\<open>defaultDetector\<close>) and four \<^verbatim>\<open>let\<close> variables
  (\<^verbatim>\<open>audioRecorder\<close>, \<^verbatim>\<open>models\<close>, \<^verbatim>\<open>detector\<close>, \<^verbatim>\<open>detectorOptions\<close>) at module
  level. The embedding threads one \<open>module_state\<close> through every operation; it holds
  those six bindings, the objects the module creates, and a trace of the calls the
  module makes on its collaborators.
\<close>

subsection \<open>JavaScript values and plain objects\<close>

type_synonym byte = "8 word"

text \<open>An audio buffer, as the detector hands it over.\<close>

type_synonym buffer = "byte list"

text \<open>
  The values that occur as fields of the option objects: strings, numbers, and the
  reference to a \<^verbatim>\<open>Models\<close> collection that line 85 stores under \<^verbatim>\<open>models\<close>.
\<close>

datatype jsval = Str string | Num int | Models_ref nat

text \<open>A plain object is its own enumerable properties.\<close>

type_synonym jsobj = "string \<rightharpoonup> jsval"

text \<open>
  The two plain objects whose identity matters: \<^verbatim>\<open>Object.assign\<close> writes into its
  first argument and returns that same object, so what lines 81 and 85 pass on is a
  reference to \<^verbatim>\<open>defaultModel\<close> or to \<^verbatim>\<open>defaultDetector\<close>, never a copy.
\<close>

datatype objref = DefaultModel | DefaultDetector

text \<open>Lines 10 to 16: the two objects as the module creates them when it is loaded.\<close>

definition defaultModel :: jsobj where
  "defaultModel =
     [''file'' \<mapsto> Str ''./node_modules/snowboy/resources/snowboy.umdl'',
      ''hotwords'' \<mapsto> Str ''snowboy'']"

definition defaultDetector :: jsobj where
  "defaultDetector = [''resource'' \<mapsto> Str ''./node_modules/snowboy/resources/common.res'']"

subsection \<open>Collaborators and the objects the module creates\<close>

text \<open>A logger is an external object with \<^verbatim>\<open>log\<close> and \<^verbatim>\<open>warn\<close>; only its identity is kept.\<close>

type_synonym logger = nat

type_synonym inst = nat

text \<open>The four event names of the public contract.\<close>

datatype event_name = Ev_error | Ev_hotword | Ev_silence | Ev_sound

text \<open>What a \<^verbatim>\<open>HotwordDetector\<close> passes to its own \<^verbatim>\<open>emit\<close>.\<close>

datatype event = Error string | Hotword int string buffer | Silence | Sound buffer

text \<open>
  What a detector raises. The \<^verbatim>\<open>error\<close> signal carries the engine's own error value,
  which the handler of line 35 takes no parameter for.
\<close>

datatype signal = Sig_error string | Sig_hotword int string buffer | Sig_silence | Sig_sound buffer

text \<open>
  The four closures of \<^verbatim>\<open>setupDetector\<close> (lines 35, 43, 50, 54). Each captures the
  \<^verbatim>\<open>instance\<close> it was created for.
\<close>

datatype handler = On_error inst | On_hotword inst | On_silence inst | On_sound inst

text \<open>
  A \<^verbatim>\<open>Detector\<close>: the options reference it was constructed with, the handlers registered
  with \<^verbatim>\<open>on\<close> in registration order, and how often \<^verbatim>\<open>reset\<close> was called on it.
\<close>

record detector_obj =
  d_options :: "objref option"
  d_handlers :: "handler list"
  d_resets :: nat

text \<open>The options literal of lines 88 to 92.\<close>

record recorder_options =
  program :: string
  sampleRate :: nat
  threshold :: nat

datatype recorder_status = Created | Recording | Paused | Stopped

text \<open>
  An \<^verbatim>\<open>AudioRecorder\<close>, at the interface the module uses: \<^verbatim>\<open>start\<close>, \<^verbatim>\<open>stop\<close>,
  \<^verbatim>\<open>pause\<close> and \<^verbatim>\<open>resume\<close> return the recorder, and \<^verbatim>\<open>stream()\<close> is a readable
  stream with its list of \<^verbatim>\<open>pipe\<close> destinations (detectors).
\<close>

record audio_recorder =
  r_options :: recorder_options
  r_logger :: "logger option"
  r_status :: recorder_status
  r_piped :: "nat list"

text \<open>
  A \<^verbatim>\<open>HotwordDetector\<close> instance: the \<^verbatim>\<open>logger\<close> field of line 72, and the event names
  for which the caller registered a listener through the inherited \<^verbatim>\<open>on\<close>.
\<close>

record facade =
  logger :: "logger option"
  listeners :: "event_name list"

text \<open>The calls on collaborators whose order the properties speak about.\<close>

datatype effect =
    Logger_log logger string
  | Logger_warn logger string
  | Emit inst event
  | Detector_new nat "objref option"
  | Detector_reset nat

datatype error =
    Type_error
  | Unhandled_error string
  | Model_not_found

text \<open>
  Objects created with \<^verbatim>\<open>new\<close> live in one list per class; an object's identity is its
  index, so a new object is the one at the old length.
\<close>

record module_state =
  objects :: "objref \<Rightarrow> jsobj"
  audioRecorder :: "nat option"
  models :: "nat option"
  detector :: "nat option"
  detectorOptions :: "objref option"
  model_colls :: "objref list list"
  detectors :: "detector_obj list"
  recorders :: "audio_recorder list"
  instances :: "facade list"
  trace :: "effect list"

text \<open>The module right after it is loaded (lines 10 to 21).\<close>

definition init :: module_state where
  "init = \<lparr> objects = (\<lambda>r. case r of DefaultModel \<Rightarrow> defaultModel | DefaultDetector \<Rightarrow> defaultDetector),
            audioRecorder = None, models = None, detector = None, detectorOptions = None,
            model_colls = [], detectors = [], recorders = [], instances = [], trace = [] \<rparr>"

definition lookup :: "'a list \<Rightarrow> nat \<Rightarrow> 'a option" where
  "lookup xs i = (if i < length xs then Some (xs ! i) else None)"

definition modify :: "'a list \<Rightarrow> nat \<Rightarrow> ('a \<Rightarrow> 'a) \<Rightarrow> 'a list" where
  "modify xs i f = (if i < length xs then xs[i := f (xs ! i)] else xs)"

subsection \<open>Library calls\<close>

text \<open>
  \<^verbatim>\<open>Object.assign(target, ...sources)\<close>: the own properties of each source are written
  into the target object, in place and from left to right; a source that is \<^verbatim>\<open>undefined\<close>
  or \<^verbatim>\<open>null\<close> (\<open>None\<close>) is skipped; the target is returned.
\<close>

definition Object_assign :: "objref \<Rightarrow> jsobj option list \<Rightarrow> module_state \<Rightarrow> objref \<times> module_state" where
  "Object_assign target sources s =
     (target,
      s\<lparr>objects := (objects s)
           (target := foldl (\<lambda>obj src. case src of None \<Rightarrow> obj | Some props \<Rightarrow> obj ++ props)
                        (objects s target) sources)\<rparr>)"

text \<open>
  \<^verbatim>\<open>new Models()\<close> is an empty collection; \<^verbatim>\<open>add\<close> appends the object it is given. This
  is \<^verbatim>\<open>add\<close> for a model that snowboy accepts; the exception it raises for a model whose
  file does not exist is in \<open>add_models_checked\<close> below. snowboy's \<^verbatim>\<open>add\<close> also rewrites
  \<^verbatim>\<open>hotwords\<close> into an array and fills in a missing \<^verbatim>\<open>sensitivity\<close> in the object it is
  given; the fields are kept here as the module wrote them.
\<close>

definition new_Models :: "module_state \<Rightarrow> nat \<times> module_state" where
  "new_Models s = (length (model_colls s), s\<lparr>model_colls := model_colls s @ [[]]\<rparr>)"

definition Models_add :: "nat \<Rightarrow> objref \<Rightarrow> module_state \<Rightarrow> module_state" where
  "Models_add m r s = s\<lparr>model_colls := modify (model_colls s) m (\<lambda>c. c @ [r])\<rparr>"

definition new_AudioRecorder :: "recorder_options \<Rightarrow> logger option \<Rightarrow> module_state \<Rightarrow> nat \<times> module_state" where
  "new_AudioRecorder opts lg s =
     (length (recorders s),
      s\<lparr>recorders := recorders s @ [\<lparr>r_options = opts, r_logger = lg, r_status = Created, r_piped = []\<rparr>]\<rparr>)"

definition logger_log :: "logger \<Rightarrow> string \<Rightarrow> module_state \<Rightarrow> module_state" where
  "logger_log lg msg s = s\<lparr>trace := trace s @ [Logger_log lg msg]\<rparr>"

definition logger_warn :: "logger \<Rightarrow> string \<Rightarrow> module_state \<Rightarrow> module_state" where
  "logger_warn lg msg s = s\<lparr>trace := trace s @ [Logger_warn lg msg]\<rparr>"

subsection \<open>The constructor (lines 68 to 100)\<close>

text \<open>
  An element of \<^verbatim>\<open>modelData\<close> in the loop of line 80: an object of the caller, or, after
  the substitution of line 78, the \<^verbatim>\<open>defaultModel\<close> object itself.
\<close>

fun source_fields :: "jsobj + objref \<Rightarrow> module_state \<Rightarrow> jsobj" where
  "source_fields (Inl obj) s = obj"
| "source_fields (Inr r) s = objects s r"

text \<open>Lines 80 to 82; \<open>m\<close> is the collection that line 75 has just bound to \<^verbatim>\<open>models\<close>.\<close>

fun add_models :: "nat \<Rightarrow> (jsobj + objref) list \<Rightarrow> module_state \<Rightarrow> module_state" where
  "add_models m [] s = s"
| "add_models m (x # xs) s =
     (let (merged, s1) = Object_assign DefaultModel [Some (source_fields x s)] s
      in add_models m xs (Models_add m merged s1))"

text \<open>
  \<open>modelData\<close> and \<open>detectorData\<close> are \<open>None\<close> when the caller passes \<^verbatim>\<open>undefined\<close> or
  \<^verbatim>\<open>null\<close>; \<open>recordingProgram\<close> and \<open>lg\<close> likewise. \<^verbatim>\<open>recordingProgram || 'rec'\<close> takes
  \<^verbatim>\<open>'rec'\<close> for the empty string too.
\<close>

definition constructor ::
  "jsobj list option \<Rightarrow> jsobj option \<Rightarrow> string option \<Rightarrow> logger option \<Rightarrow> module_state
     \<Rightarrow> inst \<times> module_state" where
  "constructor modelData detectorData recordingProgram lg s =
     (let this = length (instances s);
          s1 = s\<lparr>instances := instances s @ [\<lparr>logger = lg, listeners = []\<rparr>]\<rparr>;
          (m, s2) = new_Models s1;
          s3 = s2\<lparr>models := Some m\<rparr>;
          modelData' = (case modelData of
                          None \<Rightarrow> [Inr DefaultModel]
                        | Some ms \<Rightarrow> if length ms < 1 then [Inr DefaultModel] else map Inl ms);
          s4 = add_models m modelData' s3;
          (opts, s6) = Object_assign DefaultDetector [detectorData, Some [''models'' \<mapsto> Models_ref m]] s4;
          s7 = s6\<lparr>detectorOptions := Some opts\<rparr>;
          (r, s8) = new_AudioRecorder
                      \<lparr>program = (case recordingProgram of
                                    None \<Rightarrow> ''rec''
                                  | Some p \<Rightarrow> if p = [] then ''rec'' else p),
                       sampleRate = 16000, threshold = 0\<rparr> lg s7;
          s9 = s8\<lparr>audioRecorder := Some r\<rparr>;
          s10 = (case lg of None \<Rightarrow> s9 | Some l \<Rightarrow> logger_log l ''HotwordDetector initialized.'' s9)
      in (this, s10))"

text \<open>The objects a \<^verbatim>\<open>Models\<close> collection holds, read through the references it stores.\<close>

definition resolved_models :: "module_state \<Rightarrow> nat \<Rightarrow> jsobj list" where
  "resolved_models s m = (case lookup (model_colls s) m of None \<Rightarrow> [] | Some refs \<Rightarrow> map (objects s) refs)"

subsection \<open>The constructor when \<^verbatim>\<open>models.add\<close> raises\<close>






subsection \<open>\<^verbatim>\<open>setupDetector\<close> (lines 27 to 57)\<close>

text \<open>
  \<^verbatim>\<open>new Detector(detectorOptions)\<close>. The options are \<^verbatim>\<open>undefined\<close> (\<open>None\<close>) only before the
  first construction, when there is no instance to call a method on.
\<close>

definition new_Detector :: "objref option \<Rightarrow> module_state \<Rightarrow> nat \<times> module_state" where
  "new_Detector opts s =
     (length (detectors s),
      s\<lparr>detectors := detectors s @ [\<lparr>d_options = opts, d_handlers = [], d_resets = 0\<rparr>],
        trace := trace s @ [Detector_new (length (detectors s)) opts]\<rparr>)"

definition detector_reset :: "nat \<Rightarrow> module_state \<Rightarrow> module_state" where
  "detector_reset d s =
     s\<lparr>detectors := modify (detectors s) d (\<lambda>x. x\<lparr>d_resets := d_resets x + 1\<rparr>),
       trace := trace s @ [Detector_reset d]\<rparr>"

definition detector_on :: "nat \<Rightarrow> handler \<Rightarrow> module_state \<Rightarrow> module_state" where
  "detector_on d h s = s\<lparr>detectors := modify (detectors s) d (\<lambda>x. x\<lparr>d_handlers := d_handlers x @ [h]\<rparr>)\<rparr>"

definition setupDetector :: "inst \<Rightarrow> module_state \<Rightarrow> module_state" where
  "setupDetector instance s =
     (let s1 = (case detector s of None \<Rightarrow> s | Some d \<Rightarrow> detector_reset d s);
          (d', s2) = new_Detector (detectorOptions s1) s1;
          s3 = s2\<lparr>detector := Some d'\<rparr>;
          s4 = detector_on d' (On_error instance) s3;
          s5 = detector_on d' (On_hotword instance) s4;
          s6 = detector_on d' (On_silence instance) s5;
          s7 = detector_on d' (On_sound instance) s6
      in s7)"

subsection \<open>The handlers and the inherited \<^verbatim>\<open>emit\<close>\<close>

text \<open>An operation that can throw returns the error together with the state at the throw.\<close>

type_synonym outcome = "error \<times> module_state + module_state"

definition logger_of :: "module_state \<Rightarrow> inst \<Rightarrow> logger option" where
  "logger_of s i = (case lookup (instances s) i of None \<Rightarrow> None | Some f \<Rightarrow> logger f)"

definition listeners_of :: "module_state \<Rightarrow> inst \<Rightarrow> event_name list" where
  "listeners_of s i = (case lookup (instances s) i of None \<Rightarrow> [] | Some f \<Rightarrow> listeners f)"

text \<open>The caller registers a listener with the \<^verbatim>\<open>on\<close> that the class inherits.\<close>

definition on_listener :: "inst \<Rightarrow> event_name \<Rightarrow> module_state \<Rightarrow> module_state" where
  "on_listener i name s = s\<lparr>instances := modify (instances s) i (\<lambda>f. f\<lparr>listeners := listeners f @ [name]\<rparr>)\<rparr>"

text \<open>
  \<^verbatim>\<open>instance.emit(...)\<close> is the \<^verbatim>\<open>emit\<close> of Node's \<^verbatim>\<open>events.EventEmitter\<close>, which the class
  extends (line 59). It hands the arguments to the registered listeners, with one special
  case that Node documents: an \<^verbatim>\<open>'error'\<close> event emitted while no listener is registered
  for \<^verbatim>\<open>'error'\<close> is thrown as an exception that carries the argument.
\<close>

definition emit :: "inst \<Rightarrow> event \<Rightarrow> module_state \<Rightarrow> outcome" where
  "emit i ev s =
     (case ev of
        Error msg \<Rightarrow>
          if Ev_error \<in> set (listeners_of s i) then Inr (s\<lparr>trace := trace s @ [Emit i ev]\<rparr>)
          else Inl (Unhandled_error msg, s)
      | _ \<Rightarrow> Inr (s\<lparr>trace := trace s @ [Emit i ev]\<rparr>))"

text \<open>
  JavaScript's string conversion of an integral number, for line 45: every digit, as
  JavaScript prints a model index (an integer below ten to the power 21).
\<close>

definition digit_char :: "nat \<Rightarrow> char" where
  "digit_char n = char_of (48 + n)"

function string_of_nat :: "nat \<Rightarrow> string" where
  "string_of_nat n = (if n < 10 then [digit_char n] else string_of_nat (n div 10) @ [digit_char (n mod 10)])"
  by pat_completeness auto
termination
  by (relation "measure id") auto

definition toString :: "int \<Rightarrow> string" where
  "toString i = (if i < 0 then CHR ''-'' # string_of_nat (nat (- i)) else string_of_nat (nat i))"

fun handler_event :: "handler \<Rightarrow> event_name" where
  "handler_event (On_error _) = Ev_error"
| "handler_event (On_hotword _) = Ev_hotword"
| "handler_event (On_silence _) = Ev_silence"
| "handler_event (On_sound _) = Ev_sound"

fun signal_name :: "signal \<Rightarrow> event_name" where
  "signal_name (Sig_error _) = Ev_error"
| "signal_name (Sig_hotword _ _ _) = Ev_hotword"
| "signal_name Sig_silence = Ev_silence"
| "signal_name (Sig_sound _) = Ev_sound"

text \<open>
  The bodies of the four closures. A closure is only ever called with the arguments of
  the signal it was registered for; the last equation covers the other pairs.
\<close>

fun run_handler :: "handler \<Rightarrow> signal \<Rightarrow> module_state \<Rightarrow> outcome" where
  "run_handler (On_error instance) (Sig_error _) s =
     (let error = ''HotwordDetector: Detector error.'';
          s1 = (case logger_of s instance of None \<Rightarrow> s | Some lg \<Rightarrow> logger_warn lg error s)
      in emit instance (Error error) s1)"
| "run_handler (On_hotword instance) (Sig_hotword index hotword buf) s =
     (let s1 = (case logger_of s instance of
                  None \<Rightarrow> s
                | Some lg \<Rightarrow>
                    logger_log lg (''HotwordDetector; hotword detected; index: '' @ toString index
                                   @ ''; hotword: '' @ hotword @ ''.'') s)
      in emit instance (Hotword index hotword buf) s1)"
| "run_handler (On_silence instance) Sig_silence s = emit instance Silence s"
| "run_handler (On_sound instance) (Sig_sound buf) s = emit instance (Sound buf) s"
| "run_handler _ _ s = Inr s"

text \<open>Listeners run in registration order; an exception ends the delivery.\<close>

fun run_handlers :: "handler list \<Rightarrow> signal \<Rightarrow> module_state \<Rightarrow> outcome" where
  "run_handlers [] sig s = Inr s"
| "run_handlers (h # hs) sig s =
     (case run_handler h sig s of Inl e \<Rightarrow> Inl e | Inr s1 \<Rightarrow> run_handlers hs sig s1)"

text \<open>
  Node's \<^verbatim>\<open>pipe(dest)\<close> puts a listener of its own for \<^verbatim>\<open>'error'\<close> on the destination,
  ahead of the listeners registered with \<^verbatim>\<open>on\<close>: when the destination emits \<^verbatim>\<open>'error'\<close>,
  the stream unpipes it. \<^verbatim>\<open>unpipe\<close> takes that listener off again, so it is there
  exactly while the detector is a destination.
\<close>

definition pipe_onerror :: "nat \<Rightarrow> module_state \<Rightarrow> module_state" where
  "pipe_onerror d s = s\<lparr>recorders := map (\<lambda>x. x\<lparr>r_piped := removeAll d (r_piped x)\<rparr>) (recorders s)\<rparr>"

fun pipe_listeners :: "nat \<Rightarrow> signal \<Rightarrow> module_state \<Rightarrow> module_state" where
  "pipe_listeners d (Sig_error e) s = pipe_onerror d s"
| "pipe_listeners d sig s = s"

text \<open>
  Detector \<open>d\<close> raises a signal: the listener of \<^verbatim>\<open>pipe\<close> runs first, then the handlers
  that \<^verbatim>\<open>setupDetector\<close> registered on the detector for that name.
\<close>

definition detector_emit :: "nat \<Rightarrow> signal \<Rightarrow> module_state \<Rightarrow> outcome" where
  "detector_emit d sig s =
     run_handlers
       (filter (\<lambda>h. handler_event h = signal_name sig)
          (case lookup (detectors s) d of None \<Rightarrow> [] | Some x \<Rightarrow> d_handlers x))
       sig (pipe_listeners d sig s)"

subsection \<open>The lifecycle methods (lines 105 to 154)\<close>

definition recorder_call :: "recorder_status \<Rightarrow> nat \<Rightarrow> module_state \<Rightarrow> module_state" where
  "recorder_call st r s = s\<lparr>recorders := modify (recorders s) r (\<lambda>x. x\<lparr>r_status := st\<rparr>)\<rparr>"

definition stream_pipe :: "nat \<Rightarrow> nat \<Rightarrow> module_state \<Rightarrow> module_state" where
  "stream_pipe r d s = s\<lparr>recorders := modify (recorders s) r (\<lambda>x. x\<lparr>r_piped := r_piped x @ [d]\<rparr>)\<rparr>"

text \<open>\<^verbatim>\<open>unpipe(dest)\<close> detaches \<^verbatim>\<open>dest\<close>; \<^verbatim>\<open>unpipe(undefined)\<close> detaches every destination.\<close>

definition stream_unpipe :: "nat \<Rightarrow> nat option \<Rightarrow> module_state \<Rightarrow> module_state" where
  "stream_unpipe r dest s =
     s\<lparr>recorders := modify (recorders s) r
          (\<lambda>x. x\<lparr>r_piped := (case dest of None \<Rightarrow> [] | Some d \<Rightarrow> remove1 d (r_piped x))\<rparr>)\<rparr>"

text \<open>
  The recorder's \<^verbatim>\<open>stream()\<close> is the output of its recording process, and \<^verbatim>\<open>null\<close> while
  no process is active: before the first \<^verbatim>\<open>start()\<close> and after \<^verbatim>\<open>stop()\<close>, which ends the
  process. \<^verbatim>\<open>pause()\<close> suspends an active process and leaves a recorder without one as
  it is.
\<close>

definition process_active :: "audio_recorder \<Rightarrow> bool" where
  "process_active x = (r_status x = Recording \<or> r_status x = Paused)"

definition recorder_stream :: "nat \<Rightarrow> module_state \<Rightarrow> nat option" where
  "recorder_stream r s =
     (case lookup (recorders s) r of
        None \<Rightarrow> None
      | Some x \<Rightarrow> if process_active x then Some r else None)"

definition recorder_pause :: "nat \<Rightarrow> module_state \<Rightarrow> module_state" where
  "recorder_pause r s =
     s\<lparr>recorders := modify (recorders s) r (\<lambda>x. if process_active x then x\<lparr>r_status := Paused\<rparr> else x)\<rparr>"

text \<open>
  A method call on a module variable that is still \<^verbatim>\<open>undefined\<close>, \<^verbatim>\<open>pipe\<close> with an
  \<^verbatim>\<open>undefined\<close> destination, and \<^verbatim>\<open>unpipe\<close> on a \<^verbatim>\<open>null\<close> stream raise a \<^verbatim>\<open>TypeError\<close>.
  In \<^verbatim>\<open>stop()\<close> the stream is read from the recorder that line 120 has just stopped.
\<close>

definition start :: "inst \<Rightarrow> module_state \<Rightarrow> outcome" where
  "start this s =
     (let s1 = setupDetector this s
      in case audioRecorder s1 of
           None \<Rightarrow> Inl (Type_error, s1)
         | Some r \<Rightarrow>
             (case detector s1 of
                None \<Rightarrow> Inl (Type_error, recorder_call Recording r s1)
              | Some d \<Rightarrow>
                  (let s2 = stream_pipe r d (recorder_call Recording r s1);
                       s3 = (case logger_of s2 this of
                               None \<Rightarrow> s2
                             | Some lg \<Rightarrow> logger_log lg ''HotwordDetector: Started detecting.'' s2)
                   in Inr s3)))"

definition stop :: "inst \<Rightarrow> module_state \<Rightarrow> outcome" where
  "stop this s =
     (case audioRecorder s of
        None \<Rightarrow> Inl (Type_error, s)
      | Some r \<Rightarrow>
          (let s1 = recorder_call Stopped r s
           in case recorder_stream r s1 of
                None \<Rightarrow> Inl (Type_error, s1)
              | Some st \<Rightarrow>
                  (let s2 = stream_unpipe st (detector s1) s1;
                       s3 = (case logger_of s2 this of
                               None \<Rightarrow> s2
                             | Some lg \<Rightarrow> logger_log lg ''HotwordDetector: Stopped detecting.'' s2)
                   in Inr s3)))"

definition pause :: "inst \<Rightarrow> module_state \<Rightarrow> outcome" where
  "pause this s =
     (case audioRecorder s of
        None \<Rightarrow> Inl (Type_error, s)
      | Some r \<Rightarrow>
          (let s1 = recorder_pause r s
           in case recorder_stream r s1 of
                None \<Rightarrow> Inl (Type_error, s1)
              | Some st \<Rightarrow>
                  (let s2 = stream_unpipe st (detector s1) s1;
                       s3 = (case logger_of s2 this of
                               None \<Rightarrow> s2
                             | Some lg \<Rightarrow> logger_log lg ''HotwordDetector: Paused detecting.'' s2)
                   in Inr s3)))"

definition resume :: "inst \<Rightarrow> module_state \<Rightarrow> outcome" where
  "resume this s =
     (let s1 = setupDetector this s
      in case audioRecorder s1 of
           None \<Rightarrow> Inl (Type_error, s1)
         | Some r \<Rightarrow>
             (case detector s1 of
                None \<Rightarrow> Inl (Type_error, recorder_call Recording r s1)
              | Some d \<Rightarrow>
                  (let s2 = stream_pipe r d (recorder_call Recording r s1);
                       s3 = (case logger_of s2 this of
                               None \<Rightarrow> s2
                             | Some lg \<Rightarrow> logger_log lg ''HotwordDetector: Resumed detecting.'' s2)
                   in Inr s3)))"

subsection \<open>Running the module\<close>

fun state_of :: "outcome \<Rightarrow> module_state" where
  "state_of (Inl (e, s)) = s"
| "state_of (Inr s) = s"

datatype lifecycle = Start | Stop | Pause | Resume

fun call :: "lifecycle \<Rightarrow> inst \<Rightarrow> module_state \<Rightarrow> outcome" where
  "call Start this s = start this s"
| "call Stop this s = stop this s"
| "call Pause this s = pause this s"
| "call Resume this s = resume this s"

text \<open>
  What can happen to a loaded module: a caller constructs a \<^verbatim>\<open>HotwordDetector\<close>, registers
  a listener on one, calls a lifecycle method of one, or a detector the module created
  raises a signal. Methods are called on existing instances only, and only existing
  detectors raise signals.
\<close>

datatype action =
    New "jsobj list option" "jsobj option" "string option" "logger option"
  | Register inst event_name
  | Call lifecycle inst
  | Raise nat signal

fun step :: "module_state \<Rightarrow> action \<Rightarrow> module_state" where
  "step s (New modelData detectorData recordingProgram lg) =
     snd (constructor modelData detectorData recordingProgram lg s)"
| "step s (Register i name) = (if i < length (instances s) then on_listener i name s else s)"
| "step s (Call m i) = (if i < length (instances s) then state_of (call m i s) else s)"
| "step s (Raise d sig) = (if d < length (detectors s) then state_of (detector_emit d sig s) else s)"

definition run :: "action list \<Rightarrow> module_state" where
  "run acts = foldl step init acts"

subsection \<open>Observations\<close>

text \<open>The calls made between two states.\<close>

definition new_effects :: "module_state \<Rightarrow> module_state \<Rightarrow> effect list" where
  "new_effects s s' = drop (length (trace s)) (trace s')"

fun event_of :: "inst \<Rightarrow> effect \<Rightarrow> event list" where
  "event_of i (Emit j ev) = (if j = i then [ev] else [])"
| "event_of i _ = []"

text \<open>The events instance \<open>i\<close> has emitted so far.\<close>

definition emitted :: "inst \<Rightarrow> module_state \<Rightarrow> event list" where
  "emitted i s = concat (map (event_of i) (trace s))"

fun is_log :: "effect \<Rightarrow> bool" where
  "is_log (Logger_log _ _) = True"
| "is_log (Logger_warn _ _) = True"
| "is_log _ = False"




text \<open>The handlers that \<^verbatim>\<open>setupDetector(instance)\<close> registers, in its order.\<close>

definition wired :: "inst \<Rightarrow> handler list" where
  "wired instance = [On_error instance, On_hotword instance, On_silence instance, On_sound instance]"

definition reset_effects :: "module_state \<Rightarrow> effect list" where
  "reset_effects s = (case detector s of None \<Rightarrow> [] | Some d \<Rightarrow> [Detector_reset d])"

definition log_effects :: "module_state \<Rightarrow> inst \<Rightarrow> string \<Rightarrow> effect list" where
  "log_effects s i msg = (case logger_of s i of None \<Rightarrow> [] | Some lg \<Rightarrow> [Logger_log lg msg])"

definition warn_effects :: "module_state \<Rightarrow> inst \<Rightarrow> string \<Rightarrow> effect list" where
  "warn_effects s i msg = (case logger_of s i of None \<Rightarrow> [] | Some lg \<Rightarrow> [Logger_warn lg msg])"

definition the_models :: "jsobj list option \<Rightarrow> jsobj list" where
  "the_models modelData = (case modelData of None \<Rightarrow> [] | Some ms \<Rightarrow> ms)"

text \<open>An outcome that differs from \<open>s\<close> by appended calls, with or without an exception.\<close>

definition finish :: "module_state \<Rightarrow> effect list \<Rightarrow> error option \<Rightarrow> outcome" where
  "finish s effs err =
     (case err of None \<Rightarrow> Inr (s\<lparr>trace := trace s @ effs\<rparr>)
      | Some e \<Rightarrow> Inl (e, s\<lparr>trace := trace s @ effs\<rparr>))"

text \<open>The exception an outcome ends with, if any.\<close>

fun thrown :: "error \<times> module_state + 'a \<Rightarrow> error option" where
  "thrown (Inl (e, s)) = Some e"
| "thrown (Inr v) = None"

text \<open>
  Two facts about every state the module can be in: once an instance exists the recorder
  variable is bound, and every detector carries the four handlers of one instance.
\<close>

definition recorder_bound :: "module_state \<Rightarrow> bool" where
  "recorder_bound s = (instances s = [] \<or> audioRecorder s \<noteq> None)"

definition wired_detectors :: "module_state \<Rightarrow> bool" where
  "wired_detectors s =
     list_all (\<lambda>x. list_ex (\<lambda>i. d_handlers x = wired i) [0..<length (instances s)]) (detectors s)"


section \<open>Properties\<close>

subsection \<open>Object stores\<close>

lemma lookup_fresh [simp]: "lookup xs (length xs) = None"
  by (simp add: lookup_def)

lemma lookup_append_new [simp]: "lookup (xs @ [x]) (length xs) = Some x"
  by (simp add: lookup_def)

lemma lookup_append_old: "lookup xs i = Some y \<Longrightarrow> lookup (xs @ zs) i = Some y"
  by (auto simp: lookup_def nth_append split: if_splits)

lemma lookup_Some_iff: "lookup xs i = Some y \<longleftrightarrow> i < length xs \<and> xs ! i = y"
  by (auto simp: lookup_def)

lemma length_modify [simp]: "length (modify xs i f) = length xs"
  by (simp add: modify_def)

lemma modify_append_new [simp]: "modify (xs @ [x]) (length xs) f = xs @ [f x]"
  by (simp add: modify_def)

lemma modify_modify [simp]: "modify (modify xs i f) i g = modify xs i (\<lambda>x. g (f x))"
  by (simp add: modify_def)

lemma modify_ident: "(\<And>x. f x = x) \<Longrightarrow> modify xs i f = xs"
  by (simp add: modify_def)

lemma add_models_given:
  "add_models m (map Inl ms) s =
     s\<lparr>objects := (objects s)(DefaultModel := foldl (++) (objects s DefaultModel) ms),
       model_colls := modify (model_colls s) m (\<lambda>c. c @ replicate (length ms) DefaultModel)\<rparr>"
proof (induction ms arbitrary: s)
  case Nil
  then show ?case by (simp add: modify_ident)
next
  case (Cons a ms)
  show ?case
    by (simp add: Cons.IH Object_assign_def Models_add_def replicate_app_Cons_same cong: if_cong)
qed

lemma map_add_same: "(m::'a \<rightharpoonup> 'b) ++ m = m"
  by (rule ext) (simp add: map_add_def split: option.split)

lemma add_models_default:
  "add_models m [Inr DefaultModel] s =
     s\<lparr>model_colls := modify (model_colls s) m (\<lambda>c. c @ [DefaultModel])\<rparr>"
  by (simp add: Object_assign_def Models_add_def map_add_same)

lemma constructor_eq:
  "constructor modelData detectorData recordingProgram lg s =
     (length (instances s),
      s\<lparr>objects := (objects s)
           (DefaultModel := foldl (++) (objects s DefaultModel) (the_models modelData),
            DefaultDetector :=
              (case detectorData of None \<Rightarrow> objects s DefaultDetector
               | Some d \<Rightarrow> objects s DefaultDetector ++ d)
              ++ [''models'' \<mapsto> Models_ref (length (model_colls s))]),
        audioRecorder := Some (length (recorders s)),
        models := Some (length (model_colls s)),
        detectorOptions := Some DefaultDetector,
        model_colls := model_colls s
           @ [replicate (max 1 (length (the_models modelData))) DefaultModel],
        recorders := recorders s
           @ [\<lparr>r_options = \<lparr>program = (case recordingProgram of None \<Rightarrow> ''rec''
                                          | Some p \<Rightarrow> if p = [] then ''rec'' else p),
                             sampleRate = 16000, threshold = 0\<rparr>,
               r_logger = lg, r_status = Created, r_piped = []\<rparr>],
        instances := instances s @ [\<lparr>logger = lg, listeners = []\<rparr>],
        trace := trace s @ (case lg of None \<Rightarrow> [] | Some l \<Rightarrow> [Logger_log l ''HotwordDetector initialized.''])\<rparr>)"
proof (cases "the_models modelData = []")
  case True
  then have md: "(case modelData of None \<Rightarrow> [Inr DefaultModel]
            | Some ms \<Rightarrow> if length ms < 1 then [Inr DefaultModel] else map Inl ms) = [Inr DefaultModel]"
    by (simp add: the_models_def split: option.splits)
  show ?thesis
    using True
    by (cases lg; cases detectorData)
       (simp_all add: constructor_def md Let_def new_Models_def Object_assign_def Models_add_def
          map_add_same new_AudioRecorder_def logger_log_def fun_upd_twist cong: if_cong)
next
  case False
  then obtain ms where ms: "modelData = Some ms" "ms \<noteq> []"
    by (auto simp: the_models_def split: option.splits)
  have md: "(case modelData of None \<Rightarrow> [Inr DefaultModel]
            | Some ms \<Rightarrow> if length ms < 1 then [Inr DefaultModel] else map Inl ms) = map Inl ms"
    using ms by simp
  have mx: "max (Suc 0) (length ms) = length ms"
    using ms by (cases ms) simp_all
  show ?thesis
    using ms
    by (cases lg; cases detectorData)
       (simp_all add: constructor_def md add_models_given Let_def new_Models_def Object_assign_def
          new_AudioRecorder_def logger_log_def the_models_def mx fun_upd_twist cong: if_cong)
qed


lemma setupDetector_eq:
  "setupDetector instance s =
     s\<lparr>detector := Some (length (detectors s)),
       detectors :=
         (case detector s of None \<Rightarrow> detectors s
          | Some d \<Rightarrow> modify (detectors s) d (\<lambda>x. x\<lparr>d_resets := d_resets x + 1\<rparr>))
         @ [\<lparr>d_options = detectorOptions s, d_handlers = wired instance, d_resets = 0\<rparr>],
       trace := trace s @ reset_effects s @ [Detector_new (length (detectors s)) (detectorOptions s)]\<rparr>"
  by (cases "detector s")
     (simp_all add: setupDetector_def Let_def new_Detector_def detector_reset_def detector_on_def
        wired_def reset_effects_def)

lemma connect_eq:
  assumes "audioRecorder s = Some r"
  shows "(let s1 = setupDetector this s
      in case audioRecorder s1 of
           None \<Rightarrow> Inl (Type_error, s1)
         | Some r \<Rightarrow>
             (case detector s1 of
                None \<Rightarrow> Inl (Type_error, recorder_call Recording r s1)
              | Some d \<Rightarrow>
                  (let s2 = stream_pipe r d (recorder_call Recording r s1);
                       s3 = (case logger_of s2 this of
                               None \<Rightarrow> s2
                             | Some lg \<Rightarrow> logger_log lg msg s2)
                   in Inr s3))) =
     Inr (s\<lparr>detector := Some (length (detectors s)),
       detectors :=
         (case detector s of None \<Rightarrow> detectors s
          | Some d \<Rightarrow> modify (detectors s) d (\<lambda>x. x\<lparr>d_resets := d_resets x + 1\<rparr>))
         @ [\<lparr>d_options = detectorOptions s, d_handlers = wired this, d_resets = 0\<rparr>],
       recorders := modify (recorders s) r
         (\<lambda>x. x\<lparr>r_status := Recording, r_piped := r_piped x @ [length (detectors s)]\<rparr>),
       trace := trace s @ reset_effects s @ [Detector_new (length (detectors s)) (detectorOptions s)]
                @ log_effects s this msg\<rparr>)"
  using assms
  by (cases "logger_of s this")
     (simp_all add: setupDetector_eq Let_def recorder_call_def stream_pipe_def logger_log_def
        logger_of_def log_effects_def)

lemma start_eq:
  assumes "audioRecorder s = Some r"
  shows "start this s =
     Inr (s\<lparr>detector := Some (length (detectors s)),
       detectors :=
         (case detector s of None \<Rightarrow> detectors s
          | Some d \<Rightarrow> modify (detectors s) d (\<lambda>x. x\<lparr>d_resets := d_resets x + 1\<rparr>))
         @ [\<lparr>d_options = detectorOptions s, d_handlers = wired this, d_resets = 0\<rparr>],
       recorders := modify (recorders s) r
         (\<lambda>x. x\<lparr>r_status := Recording, r_piped := r_piped x @ [length (detectors s)]\<rparr>),
       trace := trace s @ reset_effects s @ [Detector_new (length (detectors s)) (detectorOptions s)]
                @ log_effects s this ''HotwordDetector: Started detecting.''\<rparr>)"
  unfolding start_def by (rule connect_eq [OF assms])

lemma resume_eq:
  assumes "audioRecorder s = Some r"
  shows "resume this s =
     Inr (s\<lparr>detector := Some (length (detectors s)),
       detectors :=
         (case detector s of None \<Rightarrow> detectors s
          | Some d \<Rightarrow> modify (detectors s) d (\<lambda>x. x\<lparr>d_resets := d_resets x + 1\<rparr>))
         @ [\<lparr>d_options = detectorOptions s, d_handlers = wired this, d_resets = 0\<rparr>],
       recorders := modify (recorders s) r
         (\<lambda>x. x\<lparr>r_status := Recording, r_piped := r_piped x @ [length (detectors s)]\<rparr>),
       trace := trace s @ reset_effects s @ [Detector_new (length (detectors s)) (detectorOptions s)]
                @ log_effects s this ''HotwordDetector: Resumed detecting.''\<rparr>)"
  unfolding resume_def by (rule connect_eq [OF assms])

lemma start_undefined: "audioRecorder s = None \<Longrightarrow> start this s = Inl (Type_error, setupDetector this s)"
  by (simp add: start_def setupDetector_eq)

lemma resume_undefined: "audioRecorder s = None \<Longrightarrow> resume this s = Inl (Type_error, setupDetector this s)"
  by (simp add: resume_def setupDetector_eq)

subsection \<open>Handlers only append to the trace\<close>

lemma logger_of_cong: "instances s' = instances s \<Longrightarrow> logger_of s' i = logger_of s i"
  by (simp add: logger_of_def)

lemma listeners_of_cong: "instances s' = instances s \<Longrightarrow> listeners_of s' i = listeners_of s i"
  by (simp add: listeners_of_def)

lemma on_error_eq:
  "run_handler (On_error i) (Sig_error x) s =
     (if Ev_error \<in> set (listeners_of s i)
      then Inr (s\<lparr>trace := trace s @ warn_effects s i ''HotwordDetector: Detector error.''
                     @ [Emit i (Error ''HotwordDetector: Detector error.'')]\<rparr>)
      else Inl (Unhandled_error ''HotwordDetector: Detector error.'',
                s\<lparr>trace := trace s @ warn_effects s i ''HotwordDetector: Detector error.''\<rparr>))"
  by (cases "logger_of s i")
     (simp_all add: emit_def Let_def logger_warn_def warn_effects_def listeners_of_def logger_of_def)

lemma on_hotword_eq:
  "run_handler (On_hotword i) (Sig_hotword index hotword buf) s =
     Inr (s\<lparr>trace := trace s
            @ log_effects s i (''HotwordDetector; hotword detected; index: '' @ toString index
                               @ ''; hotword: '' @ hotword @ ''.'')
            @ [Emit i (Hotword index hotword buf)]\<rparr>)"
  by (cases "logger_of s i")
     (simp_all add: emit_def Let_def logger_log_def log_effects_def logger_of_def)

lemma on_silence_eq:
  "run_handler (On_silence i) Sig_silence s = Inr (s\<lparr>trace := trace s @ [Emit i Silence]\<rparr>)"
  by (simp add: emit_def)

lemma on_sound_eq:
  "run_handler (On_sound i) (Sig_sound buf) s = Inr (s\<lparr>trace := trace s @ [Emit i (Sound buf)]\<rparr>)"
  by (simp add: emit_def)

lemma run_handler_mismatch:
  "handler_event h \<noteq> signal_name sig \<Longrightarrow> run_handler h sig s = Inr s"
  by (cases h; cases sig) simp_all


lemma finish_Nil: "finish s [] None = Inr s"
  by (simp add: finish_def)

lemma run_handler_rel:
  assumes "instances s' = instances s"
  shows "\<exists>effs err. run_handler h sig s = finish s effs err \<and> run_handler h sig s' = finish s' effs err"
proof (cases "handler_event h = signal_name sig")
  case False
  then have "run_handler h sig s = finish s [] None" "run_handler h sig s' = finish s' [] None"
    by (simp_all add: run_handler_mismatch finish_Nil)
  then show ?thesis by blast
next
  case True
  note lg = logger_of_cong [OF assms] and ls = listeners_of_cong [OF assms]
  show ?thesis
  proof (cases h)
    case (On_error i)
    with True obtain x where sig: "sig = Sig_error x" by (cases sig) simp_all
    let ?w = "warn_effects s i ''HotwordDetector: Detector error.''"
    have w: "warn_effects s' i ''HotwordDetector: Detector error.'' = ?w"
      by (simp add: warn_effects_def lg)
    show ?thesis
    proof (cases "Ev_error \<in> set (listeners_of s i)")
      case True
      have "run_handler h sig s = finish s (?w @ [Emit i (Error ''HotwordDetector: Detector error.'')]) None"
        "run_handler h sig s' = finish s' (?w @ [Emit i (Error ''HotwordDetector: Detector error.'')]) None"
        using True by (simp_all add: On_error sig on_error_eq finish_def ls w del: run_handler.simps)
      then show ?thesis by blast
    next
      case False
      have "run_handler h sig s = finish s ?w (Some (Unhandled_error ''HotwordDetector: Detector error.''))"
        "run_handler h sig s' = finish s' ?w (Some (Unhandled_error ''HotwordDetector: Detector error.''))"
        using False by (simp_all add: On_error sig on_error_eq finish_def ls w del: run_handler.simps)
      then show ?thesis by blast
    qed
  next
    case (On_hotword i)
    with True obtain index hotword buf where sig: "sig = Sig_hotword index hotword buf"
      by (cases sig) simp_all
    let ?msg = "''HotwordDetector; hotword detected; index: '' @ toString index
                               @ ''; hotword: '' @ hotword @ ''.''"
    have l: "log_effects s' i ?msg = log_effects s i ?msg"
      by (simp add: log_effects_def lg)
    have "run_handler h sig s = finish s (log_effects s i ?msg @ [Emit i (Hotword index hotword buf)]) None"
      "run_handler h sig s' = finish s' (log_effects s i ?msg @ [Emit i (Hotword index hotword buf)]) None"
      unfolding On_hotword sig on_hotword_eq finish_def l by simp_all
    then show ?thesis by blast
  next
    case (On_silence i)
    with True have sig: "sig = Sig_silence" by (cases sig) simp_all
    have "run_handler h sig s = finish s [Emit i Silence] None"
      "run_handler h sig s' = finish s' [Emit i Silence] None"
      by (simp_all add: On_silence sig on_silence_eq finish_def del: run_handler.simps)
    then show ?thesis by blast
  next
    case (On_sound i)
    with True obtain buf where sig: "sig = Sig_sound buf" by (cases sig) simp_all
    have "run_handler h sig s = finish s [Emit i (Sound buf)] None"
      "run_handler h sig s' = finish s' [Emit i (Sound buf)] None"
      by (simp_all add: On_sound sig on_sound_eq finish_def del: run_handler.simps)
    then show ?thesis by blast
  qed
qed

lemma finish_instances: "instances (s\<lparr>trace := t\<rparr>) = instances s"
  by simp

lemma run_handlers_rel:
  assumes "instances s' = instances s"
  shows "\<exists>effs err. run_handlers hs sig s = finish s effs err \<and> run_handlers hs sig s' = finish s' effs err"
  using assms
proof (induction hs arbitrary: s s')
  case Nil
  have "run_handlers [] sig s = finish s [] None" "run_handlers [] sig s' = finish s' [] None"
    by (simp_all add: finish_Nil)
  then show ?case by blast
next
  case (Cons h hs)
  from run_handler_rel [OF Cons.prems, of h sig]
  obtain e1 err1 where h1: "run_handler h sig s = finish s e1 err1"
    and h2: "run_handler h sig s' = finish s' e1 err1"
    by blast
  show ?case
  proof (cases err1)
    case (Some e)
    have "run_handlers (h # hs) sig s = finish s e1 (Some e)"
      "run_handlers (h # hs) sig s' = finish s' e1 (Some e)"
      using h1 h2 Some by (simp_all add: finish_def)
    then show ?thesis by blast
  next
    case None
    let ?t = "s\<lparr>trace := trace s @ e1\<rparr>" and ?t' = "s'\<lparr>trace := trace s' @ e1\<rparr>"
    have "instances ?t' = instances ?t"
      using Cons.prems by simp
    from Cons.IH [OF this]
    obtain e2 err2 where r1: "run_handlers hs sig ?t = finish ?t e2 err2"
      and r2: "run_handlers hs sig ?t' = finish ?t' e2 err2"
      by blast
    have f1: "finish ?t e2 err2 = finish s (e1 @ e2) err2"
      and f2: "finish ?t' e2 err2 = finish s' (e1 @ e2) err2"
      by (cases err2; simp add: finish_def)+
    have "run_handlers (h # hs) sig s = finish s (e1 @ e2) err2"
      "run_handlers (h # hs) sig s' = finish s' (e1 @ e2) err2"
      using h1 h2 None r1 r2 f1 f2 by (simp_all add: finish_def)
    then show ?thesis by blast
  qed
qed

lemma pipe_listeners_frame [simp]:
  "instances (pipe_listeners d sig s) = instances s"
  "detectors (pipe_listeners d sig s) = detectors s"
  "trace (pipe_listeners d sig s) = trace s"
  "audioRecorder (pipe_listeners d sig s) = audioRecorder s"
  "detector (pipe_listeners d sig s) = detector s"
  by (cases sig; simp add: pipe_onerror_def)+

lemma pipe_listeners_other [simp]:
  "signal_name sig \<noteq> Ev_error \<Longrightarrow> pipe_listeners d sig s = s"
  by (cases sig) simp_all

lemma detector_emit_rel:
  assumes "instances s' = instances s" "detectors s' = detectors s"
  shows "\<exists>effs err. detector_emit d sig s = finish (pipe_listeners d sig s) effs err
                   \<and> detector_emit d sig s' = finish (pipe_listeners d sig s') effs err"
proof -
  have "instances (pipe_listeners d sig s') = instances (pipe_listeners d sig s)"
    using assms(1) by simp
  from run_handlers_rel [OF this]
  show ?thesis
    unfolding detector_emit_def assms(2) by blast
qed

lemma state_of_finish [simp]: "state_of (finish s effs err) = s\<lparr>trace := trace s @ effs\<rparr>"
  by (cases err) (simp_all add: finish_def)

lemma thrown_finish [simp]: "thrown (finish s effs err) = err"
  by (cases err) (simp_all add: finish_def)

lemma detector_emit_frame:
  "\<exists>effs. state_of (detector_emit d sig s)
            = (pipe_listeners d sig s)\<lparr>trace := trace s @ effs\<rparr>"
proof -
  obtain effs err where "detector_emit d sig s = finish (pipe_listeners d sig s) effs err"
    using detector_emit_rel [of s s d sig] by blast
  then have "state_of (detector_emit d sig s) = (pipe_listeners d sig s)\<lparr>trace := trace s @ effs\<rparr>"
    by simp
  then show ?thesis ..
qed

lemma new_effects_append [simp]: "new_effects s (s'\<lparr>trace := trace s @ effs\<rparr>) = effs"
  by (simp add: new_effects_def)

subsection \<open>The constructor\<close>

lemma constructor_models_size:
  assumes "constructor modelData detectorData recordingProgram lg s = (this, s')"
  shows "models s' = Some (length (model_colls s))
       \<and> length (resolved_models s' (length (model_colls s))) = max 1 (length (the_models modelData))"
  using assms by (auto simp: constructor_eq resolved_models_def)

lemma constructor_default_entry:
  assumes "constructor modelData detectorData recordingProgram lg s = (this, s')"
    and "the_models modelData = []"
  shows "resolved_models s' (length (model_colls s)) = [objects s DefaultModel]"
  using assms by (auto simp: constructor_eq resolved_models_def)

lemma constructor_default_entry_init:
  assumes "constructor modelData detectorData recordingProgram lg init = (this, s')"
    and "the_models modelData = []"
  shows "resolved_models s' 0 = [defaultModel]"
  using constructor_default_entry [OF assms] by (simp add: init_def)

text \<open>
  Claim C1: merging a per-model override does not change the shared \<^verbatim>\<open>defaultModel\<close>
  object, so a second listener still sees the built-in default fields.

  The code does not keep this. \<^verbatim>\<open>Object.assign(defaultModel, modelData[i])\<close> writes the
  override into \<^verbatim>\<open>defaultModel\<close> itself. After a listener built with the single override
  \<^verbatim>\<open>{hotwords: 'alexa'}\<close>, a listener built with the single override \<^verbatim>\<open>{file: 'b.pmdl'}\<close>
  resolves its model to \<^verbatim>\<open>hotwords: 'alexa'\<close>, where the built-in default is \<^verbatim>\<open>'snowboy'\<close>.
\<close>

theorem C1_second_construction_sees_first_override:
  "let s1 = snd (constructor (Some [[''hotwords'' \<mapsto> Str ''alexa'']]) None None None init);
       s2 = snd (constructor (Some [[''file'' \<mapsto> Str ''b.pmdl'']]) None None None s1)
   in defaultModel ''hotwords'' = Some (Str ''snowboy'')
    \<and> objects s1 DefaultModel ''hotwords'' = Some (Str ''alexa'')
    \<and> models s2 = Some 1
    \<and> map (\<lambda>obj. (obj ''file'', obj ''hotwords'')) (resolved_models s2 1)
        = [(Some (Str ''b.pmdl''), Some (Str ''alexa''))]"
  by (simp add: Let_def constructor_eq resolved_models_def lookup_def the_models_def init_def defaultModel_def)

text \<open>
  Claim C5: for every sequence of model specifications, the resolved collection has
  \<open>max 1 n\<close> entries, and for the empty sequence its one entry equals the built-in default.

  The size holds in every state (\<open>constructor_models_size\<close>), and on a freshly loaded
  module the entry for the empty sequence is the built-in default
  (\<open>constructor_default_entry_init\<close>). The entry is the \<^verbatim>\<open>defaultModel\<close> object itself,
  though, and an earlier construction with an override has written into it: after a
  listener built with \<^verbatim>\<open>{hotwords: 'alexa'}\<close>, a listener built with the empty sequence
  gets one entry with \<^verbatim>\<open>hotwords: 'alexa'\<close>.
\<close>

theorem C5_empty_sequence_after_override:
  "let s1 = snd (constructor (Some [[''hotwords'' \<mapsto> Str ''alexa'']]) None None None init);
       s2 = snd (constructor (Some []) None None None s1)
   in models s2 = Some 1
    \<and> length (resolved_models s2 1) = 1
    \<and> map (\<lambda>obj. obj ''hotwords'') (resolved_models s2 1) = [Some (Str ''alexa'')]
    \<and> map (\<lambda>obj. obj ''hotwords'') [defaultModel] = [Some (Str ''snowboy'')]"
  by (simp add: Let_def constructor_eq resolved_models_def lookup_def the_models_def init_def defaultModel_def)

text \<open>
  Claim C9: after a construction, the object that \<^verbatim>\<open>detectorOptions\<close> refers to has its
  \<^verbatim>\<open>models\<close> field bound to the model collection that this construction created, whatever
  the caller's detector override holds under \<^verbatim>\<open>models\<close>, because \<^verbatim>\<open>{ models: models }\<close>
  is the last source of the merge.
\<close>

theorem C9_models_field_bound_last:
  assumes "constructor modelData detectorData recordingProgram lg s = (this, s')"
  shows "\<exists>m opts. models s' = Some m
           \<and> lookup (model_colls s) m = None
           \<and> lookup (model_colls s') m = Some (replicate (max 1 (length (the_models modelData))) DefaultModel)
           \<and> detectorOptions s' = Some opts
           \<and> objects s' opts ''models'' = Some (Models_ref m)"
  using assms by (auto simp: constructor_eq)

theorem C9_witness:
  "\<exists>m opts. models (snd (constructor None (Some [''models'' \<mapsto> Str ''mine'']) None None init)) = Some m
           \<and> detectorOptions (snd (constructor None (Some [''models'' \<mapsto> Str ''mine'']) None None init)) = Some opts
           \<and> objects (snd (constructor None (Some [''models'' \<mapsto> Str ''mine'']) None None init)) opts ''models''
               = Some (Models_ref m)"
  using C9_models_field_bound_last
    [of None "Some [''models'' \<mapsto> Str ''mine'']" None None init
        "fst (constructor None (Some [''models'' \<mapsto> Str ''mine'']) None None init)"
        "snd (constructor None (Some [''models'' \<mapsto> Str ''mine'']) None None init)"]
  by auto

subsection \<open>Signals of a detector that \<^verbatim>\<open>setupDetector\<close> has wired\<close>

lemma run_handlers_single: "run_handlers [h] sig s = run_handler h sig s"
  by (cases "run_handler h sig s") simp_all

lemma detector_emit_single:
  assumes "lookup (detectors s) d = Some x"
    and "filter (\<lambda>h. handler_event h = signal_name sig) (d_handlers x) = [h]"
  shows "detector_emit d sig s = run_handler h sig (pipe_listeners d sig s)"
  using assms unfolding detector_emit_def
  by (simp add: run_handlers_single del: run_handler.simps run_handlers.simps)



lemma detector_emit_wired_silence:
  assumes "lookup (detectors s) d = Some x" "d_handlers x = wired this"
  shows "detector_emit d Sig_silence s = run_handler (On_silence this) Sig_silence s"
  using detector_emit_single [OF assms(1), of Sig_silence "On_silence this"]
  by (simp add: assms(2) wired_def del: run_handler.simps)

lemma detector_emit_wired_sound:
  assumes "lookup (detectors s) d = Some x" "d_handlers x = wired this"
  shows "detector_emit d (Sig_sound buf) s = run_handler (On_sound this) (Sig_sound buf) s"
  using detector_emit_single [OF assms(1), of "Sig_sound buf" "On_sound this"]
  by (simp add: assms(2) wired_def del: run_handler.simps)

lemma emitted_append [simp]:
  "emitted i (s\<lparr>trace := trace s @ effs\<rparr>) = emitted i s @ concat (map (event_of i) effs)"
  by (simp add: emitted_def)

lemma event_of_log_effects [simp]: "concat (map (event_of i) (log_effects s j msg)) = []"
  by (cases "logger_of s j") (simp_all add: log_effects_def)

lemma not_log_log_effects [simp]: "filter (\<lambda>e. \<not> is_log e) (log_effects s j msg) = []"
  by (cases "logger_of s j") (simp_all add: log_effects_def)

subsection \<open>The lifecycle methods in closed form\<close>

lemma start_unfold:
  "start this s =
     (case audioRecorder s of
        None \<Rightarrow> Inl (Type_error, setupDetector this s)
      | Some r \<Rightarrow>
     Inr (s\<lparr>detector := Some (length (detectors s)),
       detectors :=
         (case detector s of None \<Rightarrow> detectors s
          | Some d \<Rightarrow> modify (detectors s) d (\<lambda>x. x\<lparr>d_resets := d_resets x + 1\<rparr>))
         @ [\<lparr>d_options = detectorOptions s, d_handlers = wired this, d_resets = 0\<rparr>],
       recorders := modify (recorders s) r
         (\<lambda>x. x\<lparr>r_status := Recording, r_piped := r_piped x @ [length (detectors s)]\<rparr>),
       trace := trace s @ reset_effects s @ [Detector_new (length (detectors s)) (detectorOptions s)]
                @ log_effects s this ''HotwordDetector: Started detecting.''\<rparr>))"
  by (cases "audioRecorder s") (simp_all add: start_undefined start_eq)

lemma resume_unfold:
  "resume this s =
     (case audioRecorder s of
        None \<Rightarrow> Inl (Type_error, setupDetector this s)
      | Some r \<Rightarrow>
     Inr (s\<lparr>detector := Some (length (detectors s)),
       detectors :=
         (case detector s of None \<Rightarrow> detectors s
          | Some d \<Rightarrow> modify (detectors s) d (\<lambda>x. x\<lparr>d_resets := d_resets x + 1\<rparr>))
         @ [\<lparr>d_options = detectorOptions s, d_handlers = wired this, d_resets = 0\<rparr>],
       recorders := modify (recorders s) r
         (\<lambda>x. x\<lparr>r_status := Recording, r_piped := r_piped x @ [length (detectors s)]\<rparr>),
       trace := trace s @ reset_effects s @ [Detector_new (length (detectors s)) (detectorOptions s)]
                @ log_effects s this ''HotwordDetector: Resumed detecting.''\<rparr>))"
  by (cases "audioRecorder s") (simp_all add: resume_undefined resume_eq)

lemma stream_after_stop:
  "recorder_stream r (recorder_call Stopped r s) = None"
  by (simp add: recorder_stream_def recorder_call_def lookup_def modify_def process_active_def)

lemma stop_unfold:
  "stop this s =
     (case audioRecorder s of
        None \<Rightarrow> Inl (Type_error, s)
      | Some r \<Rightarrow>
          Inl (Type_error, s\<lparr>recorders := modify (recorders s) r (\<lambda>x. x\<lparr>r_status := Stopped\<rparr>)\<rparr>))"
  by (cases "audioRecorder s")
     (simp_all add: stop_def Let_def stream_after_stop, simp add: recorder_call_def)

lemma pause_unfold:
  "pause this s =
     (case audioRecorder s of
        None \<Rightarrow> Inl (Type_error, s)
      | Some r \<Rightarrow>
          (case lookup (recorders s) r of
             None \<Rightarrow> Inl (Type_error, s)
           | Some x \<Rightarrow>
               if process_active x
               then Inr (s\<lparr>recorders := modify (recorders s) r
                             (\<lambda>x. x\<lparr>r_status := Paused,
                                    r_piped := (case detector s of None \<Rightarrow> []
                                                | Some d \<Rightarrow> remove1 d (r_piped x))\<rparr>),
                           trace := trace s @ log_effects s this ''HotwordDetector: Paused detecting.''\<rparr>)
               else Inl (Type_error, s)))"
proof (cases "audioRecorder s")
  case None
  then show ?thesis by (simp add: pause_def)
next
  case (Some r)
  show ?thesis
  proof (cases "lookup (recorders s) r")
    case None
    then have "recorder_pause r s = s"
      by (simp add: recorder_pause_def modify_def lookup_def split: if_splits)
    then show ?thesis
      using Some None by (simp add: pause_def Let_def recorder_stream_def)
  next
    case (Some x)
    note x = this
    show ?thesis
    proof (cases "process_active x")
      case False
      then have "recorder_pause r s = s"
        using x by (auto simp: recorder_pause_def modify_def lookup_def split: if_splits)
      then show ?thesis
        using \<open>audioRecorder s = Some r\<close> x False
        by (simp add: pause_def Let_def recorder_stream_def)
    next
      case True
      have r: "r < length (recorders s)" "recorders s ! r = x"
        using x by (auto simp: lookup_def split: if_splits)
      have p: "recorder_pause r s = s\<lparr>recorders := (recorders s)[r := x\<lparr>r_status := Paused\<rparr>]\<rparr>"
        using r True by (simp add: recorder_pause_def modify_def)
      have st: "recorder_stream r (recorder_pause r s) = Some r"
        using r by (simp add: p recorder_stream_def lookup_def process_active_def)
      show ?thesis
        using \<open>audioRecorder s = Some r\<close> x True r
        by (cases "logger_of s this"; cases "detector s")
           (simp_all add: pause_def Let_def st, simp_all add: p stream_unpipe_def modify_def
              logger_log_def logger_of_def log_effects_def)
    qed
  qed
qed

lemmas eval_simps =
  run_def init_def constructor_eq start_unfold resume_unfold stop_unfold pause_unfold
  the_models_def lookup_def modify_def reset_effects_def log_effects_def warn_effects_def
  logger_of_def listeners_of_def emitted_def new_effects_def wired_def on_listener_def
  detector_emit_def emit_def logger_log_def logger_warn_def Let_def process_active_def
  pipe_onerror_def






subsection \<open>Replacing the detector\<close>

lemma lookup_modify_same: "lookup xs i = Some x \<Longrightarrow> lookup (modify xs i f) i = Some (f x)"
  by (auto simp: lookup_def modify_def split: if_splits)

lemma lookup_modify_append:
  "lookup xs i = Some x \<Longrightarrow> lookup (modify xs i f @ ys) i = Some (f x)"
  by (auto simp: lookup_def modify_def nth_append split: if_splits)

lemma lookup_modify_append_new: "lookup (modify xs i f @ [y]) (length xs) = Some y"
  using lookup_append_new [of "modify xs i f" y] by simp

lemma new_effects_setupDetector:
  "new_effects s (setupDetector this s)
     = reset_effects s @ [Detector_new (length (detectors s)) (detectorOptions s)]"
  by (simp add: setupDetector_eq new_effects_def)

lemma constructor_keeps_detector:
  assumes "constructor modelData detectorData recordingProgram lg s = (this, s')"
  shows "detector s' = detector s \<and> detectors s' = detectors s
       \<and> audioRecorder s' = Some (length (recorders s))"
  using assms by (auto simp: constructor_eq)

text \<open>
  Claim C10, as stated: \<^verbatim>\<open>setupDetector\<close> calls \<^verbatim>\<open>reset()\<close> on a prior detector only when
  one exists, and on the first \<^verbatim>\<open>start()\<close> after construction no \<^verbatim>\<open>reset\<close> call is made.
  The detector variable belongs to the module, not to the instance: once a first listener
  has been started, the first \<^verbatim>\<open>start()\<close> of a second listener does call \<^verbatim>\<open>reset()\<close>, on
  the first listener's detector.
\<close>

theorem C10_second_listener_first_start_resets:
  "detector (run [New None None None None, Call Start 0, New None None None None]) = Some 0
   \<and> new_effects (run [New None None None None, Call Start 0, New None None None None])
        (run [New None None None None, Call Start 0, New None None None None, Call Start 1])
       = [Detector_reset 0, Detector_new 1 (Some DefaultDetector)]"
  by (simp add: eval_simps)

text \<open>
  Claim C10, amended: \<^verbatim>\<open>setupDetector\<close> calls \<^verbatim>\<open>reset()\<close> on a prior detector exactly when
  the module's detector variable holds one. With none held it makes no \<^verbatim>\<open>reset\<close> call and
  sets the new detector up, and a \<^verbatim>\<open>start()\<close> then makes no \<^verbatim>\<open>reset\<close> call; this is the
  case on the first \<^verbatim>\<open>start()\<close> after a construction on a freshly loaded module, which
  completes with no \<^verbatim>\<open>reset\<close> call at all.
\<close>

theorem C10_reset_only_on_prior_detector_amended:
  "(Detector_reset d \<in> set (new_effects s (setupDetector this s)) \<longleftrightarrow> detector s = Some d)
   \<and> (detector s = None \<longrightarrow>
        new_effects s (setupDetector this s) = [Detector_new (length (detectors s)) (detectorOptions s)]
        \<and> detector (setupDetector this s) = Some (length (detectors s))
        \<and> lookup (detectors (setupDetector this s)) (length (detectors s))
            = Some \<lparr>d_options = detectorOptions s, d_handlers = wired this, d_resets = 0\<rparr>
        \<and> (\<forall>d'. Detector_reset d' \<notin> set (new_effects s (state_of (start this s)))))
   \<and> (constructor modelData detectorData recordingProgram lg init = (this, s1) \<longrightarrow>
        detector s1 = None
        \<and> (\<exists>s2. start this s1 = Inr s2 \<and> (\<forall>d'. Detector_reset d' \<notin> set (trace s2))))"
proof (intro conjI impI)
  show "Detector_reset d \<in> set (new_effects s (setupDetector this s)) \<longleftrightarrow> detector s = Some d"
    by (cases "detector s") (auto simp: new_effects_setupDetector reset_effects_def)
next
  assume "detector s = None"
  then show "new_effects s (setupDetector this s)
               = [Detector_new (length (detectors s)) (detectorOptions s)]"
    by (simp add: new_effects_setupDetector reset_effects_def)
next
  assume "detector s = None"
  then show "detector (setupDetector this s) = Some (length (detectors s))"
    by (simp add: setupDetector_eq)
next
  assume "detector s = None"
  then show "lookup (detectors (setupDetector this s)) (length (detectors s))
            = Some \<lparr>d_options = detectorOptions s, d_handlers = wired this, d_resets = 0\<rparr>"
    by (simp add: setupDetector_eq)
next
  assume n: "detector s = None"
  show "\<forall>d'. Detector_reset d' \<notin> set (new_effects s (state_of (start this s)))"
  proof (cases "audioRecorder s")
    case None
    then show ?thesis
      using n by (simp add: start_undefined new_effects_setupDetector reset_effects_def)
  next
    case (Some r)
    show ?thesis
      using n unfolding start_eq [OF Some]
      by (cases "logger_of s this") (simp_all add: new_effects_def reset_effects_def log_effects_def)
  qed
next
  assume c: "constructor modelData detectorData recordingProgram lg init = (this, s1)"
  then show "detector s1 = None"
    using constructor_keeps_detector [OF c] by (simp add: init_def)
next
  assume c: "constructor modelData detectorData recordingProgram lg init = (this, s1)"
  have "detector s1 = None" "audioRecorder s1 = Some 0"
    using constructor_keeps_detector [OF c] by (simp_all add: init_def)
  moreover have "\<forall>d'. Detector_reset d' \<notin> set (trace s1)"
    using c by (auto simp: constructor_eq init_def split: option.splits)
  ultimately show "\<exists>s2. start this s1 = Inr s2 \<and> (\<forall>d'. Detector_reset d' \<notin> set (trace s2))"
    by (cases "logger_of s1 this") (auto simp: start_unfold reset_effects_def log_effects_def)
qed

theorem C10_witness:
  "new_effects init (setupDetector 0 init) = [Detector_new 0 None]
   \<and> (\<forall>d'. Detector_reset d' \<notin> set (new_effects init (state_of (start 0 init))))
   \<and> (\<exists>s2. start 0 (snd (constructor None None None (Some 7) init)) = Inr s2
          \<and> (\<forall>d'. Detector_reset d' \<notin> set (trace s2)))"
  using C10_reset_only_on_prior_detector_amended
    [of 0 init 0 None None None "Some 7" "snd (constructor None None None (Some 7) init)"]
  by (simp add: constructor_eq) (simp add: init_def)

text \<open>
  Claim C4: every \<^verbatim>\<open>start()\<close> and \<^verbatim>\<open>resume()\<close> constructs a new detector from the stored
  \<^verbatim>\<open>detectorOptions\<close>; a detector that existed before has \<^verbatim>\<open>reset()\<close> called on it first;
  the detector that gets connected to the recorder's stream is the new one, never one
  that existed before the call.
\<close>

theorem C4_new_detector_each_start_and_resume:
  assumes "m = Start \<or> m = Resume" and "s' = state_of (call m this s)"
  shows "detector s' = Some (length (detectors s))
       \<and> lookup (detectors s) (length (detectors s)) = None
       \<and> lookup (detectors s') (length (detectors s))
           = Some \<lparr>d_options = detectorOptions s, d_handlers = wired this, d_resets = 0\<rparr>
       \<and> (\<exists>logs. new_effects s s'
              = reset_effects s @ Detector_new (length (detectors s)) (detectorOptions s) # logs
              \<and> filter (\<lambda>e. \<not> is_log e) logs = [])
       \<and> (\<forall>d x. detector s = Some d \<and> lookup (detectors s) d = Some x \<longrightarrow>
              lookup (detectors s') d = Some (x\<lparr>d_resets := d_resets x + 1\<rparr>))
       \<and> (\<forall>r x. audioRecorder s = Some r \<and> lookup (recorders s) r = Some x \<longrightarrow>
              call m this s = Inr s'
              \<and> lookup (recorders s') r
                  = Some (x\<lparr>r_status := Recording, r_piped := r_piped x @ [length (detectors s)]\<rparr>))"
proof (cases "audioRecorder s")
  case None
  then have s': "s' = setupDetector this s"
    using assms by (auto simp: start_undefined resume_undefined)
  show ?thesis
    unfolding s' using None
    by (cases "detector s")
       (auto simp: setupDetector_eq new_effects_def reset_effects_def lookup_modify_append
          lookup_modify_append_new)
next
  case (Some r)
  from assms(1) show ?thesis
  proof
    assume "m = Start"
    then have s': "call m this s = Inr s'"
      using assms(2) Some by (simp add: start_eq)
    show ?thesis
      using s' Some unfolding \<open>m = Start\<close> call.simps start_eq [OF Some]
      by (cases "detector s")
         (auto simp: new_effects_def reset_effects_def lookup_modify_append
            lookup_modify_append_new lookup_modify_same)
  next
    assume "m = Resume"
    then have s': "call m this s = Inr s'"
      using assms(2) Some by (simp add: resume_eq)
    show ?thesis
      using s' Some unfolding \<open>m = Resume\<close> call.simps resume_eq [OF Some]
      by (cases "detector s")
         (auto simp: new_effects_def reset_effects_def lookup_modify_append
            lookup_modify_append_new lookup_modify_same)
  qed
qed

theorem C4_witness:
  "detector (run [New None None None None, Call Start 0, Call Pause 0, Call Resume 0]) = Some 1
   \<and> map d_resets (detectors (run [New None None None None, Call Start 0, Call Pause 0, Call Resume 0])) = [1, 0]
   \<and> new_effects (run [New None None None None, Call Start 0, Call Pause 0])
        (run [New None None None None, Call Start 0, Call Pause 0, Call Resume 0])
       = [Detector_reset 0, Detector_new 1 (Some DefaultDetector)]
   \<and> map r_piped (recorders (run [New None None None None, Call Start 0, Call Pause 0, Call Resume 0])) = [[1]]"
  using C4_new_detector_each_start_and_resume
    [of Resume "run [New None None None None, Call Start 0, Call Pause 0, Call Resume 0]"
        0 "run [New None None None None, Call Start 0, Call Pause 0]"]
  by (simp add: eval_simps)

subsection \<open>What holds in every state the module reaches\<close>


lemma list_all_modify:
  assumes "list_all P xs" and "\<And>x. P x \<Longrightarrow> P (f x)"
  shows "list_all P (modify xs i f)"
  using assms
  by (auto simp: modify_def list_all_iff dest!: set_update_subset_insert [THEN subsetD])

lemma wired_detectors_mono:
  assumes "wired_detectors s" and "detectors s' = detectors s"
    and "length (instances s) \<le> length (instances s')"
  shows "wired_detectors s'"
  using assms unfolding wired_detectors_def list_all_iff list_ex_iff
  by (metis atLeastLessThan_iff order_less_le_trans set_upt)

lemma recorder_bound_constructor:
  "recorder_bound (snd (constructor modelData detectorData recordingProgram lg s))"
  by (simp add: constructor_eq recorder_bound_def)

lemma wired_detectors_constructor:
  "wired_detectors s \<Longrightarrow> wired_detectors (snd (constructor modelData detectorData recordingProgram lg s))"
  by (erule wired_detectors_mono) (simp_all add: constructor_eq)

lemma wired_detectors_setup:
  assumes "wired_detectors s" and "this < length (instances s)"
    and "instances s' = instances s"
    and "detectors s' = (case detector s of None \<Rightarrow> detectors s
          | Some d \<Rightarrow> modify (detectors s) d (\<lambda>x. x\<lparr>d_resets := d_resets x + 1\<rparr>))
         @ [\<lparr>d_options = opts, d_handlers = wired this, d_resets = 0\<rparr>]"
  shows "wired_detectors s'"
proof -
  let ?P = "\<lambda>x. list_ex (\<lambda>i. d_handlers x = wired i) [0..<length (instances s)]"
  have old: "list_all ?P (case detector s of None \<Rightarrow> detectors s
          | Some d \<Rightarrow> modify (detectors s) d (\<lambda>x. x\<lparr>d_resets := d_resets x + 1\<rparr>))"
    using assms(1) unfolding wired_detectors_def
    by (cases "detector s") (auto intro: list_all_modify)
  have new: "?P \<lparr>d_options = opts, d_handlers = wired this, d_resets = 0\<rparr>"
    using assms(2) by (auto simp: list_ex_iff)
  show ?thesis
    unfolding wired_detectors_def assms(3) assms(4) using old new by simp
qed

lemma stop_pause_frame:
  assumes "m = Stop \<or> m = Pause"
  shows "detector (state_of (call m this s)) = detector s
       \<and> detectors (state_of (call m this s)) = detectors s
       \<and> instances (state_of (call m this s)) = instances s
       \<and> audioRecorder (state_of (call m this s)) = audioRecorder s"
  using assms by (auto simp: stop_unfold pause_unfold split: option.splits)

lemma call_frame:
  "instances (state_of (call m this s)) = instances s
   \<and> audioRecorder (state_of (call m this s)) = audioRecorder s"
proof (cases "m = Stop \<or> m = Pause")
  case True
  then show ?thesis by (simp add: stop_pause_frame)
next
  case False
  then show ?thesis
    by (cases m; cases "audioRecorder s")
       (simp_all add: start_unfold resume_unfold setupDetector_eq)
qed

lemma wired_detectors_call:
  assumes "wired_detectors s" and "this < length (instances s)"
  shows "wired_detectors (state_of (call m this s))"
proof (cases m)
  case Start
  show ?thesis
    unfolding Start
    by (rule wired_detectors_setup [OF assms, where opts = "detectorOptions s"]; cases "audioRecorder s")
       (simp_all add: start_unfold setupDetector_eq)
next
  case Resume
  show ?thesis
    unfolding Resume
    by (rule wired_detectors_setup [OF assms, where opts = "detectorOptions s"]; cases "audioRecorder s")
       (simp_all add: resume_unfold setupDetector_eq)
next
  case Stop
  then have "m = Stop \<or> m = Pause" by simp
  from stop_pause_frame [OF this, of this s] show ?thesis
    by (intro wired_detectors_mono [OF assms(1)]) simp_all
next
  case Pause
  then have "m = Stop \<or> m = Pause" by simp
  from stop_pause_frame [OF this, of this s] show ?thesis
    by (intro wired_detectors_mono [OF assms(1)]) simp_all
qed

lemma step_invariant:
  assumes "recorder_bound s \<and> wired_detectors s"
  shows "recorder_bound (step s a) \<and> wired_detectors (step s a)"
proof (cases a)
  case (New modelData detectorData recordingProgram lg)
  then show ?thesis
    using assms by (simp add: recorder_bound_constructor wired_detectors_constructor)
next
  case (Register i name)
  have "wired_detectors (on_listener i name s)"
    using assms by (auto elim!: wired_detectors_mono simp: on_listener_def)
  moreover have "recorder_bound (on_listener i name s)"
    using assms by (auto simp: recorder_bound_def on_listener_def modify_def)
  ultimately show ?thesis
    using assms Register by simp
next
  case (Call m i)
  have "recorder_bound (state_of (call m i s))"
    using assms by (simp add: recorder_bound_def call_frame)
  then show ?thesis
    using assms Call by (simp add: wired_detectors_call)
next
  case (Raise d sig)
  obtain effs where e: "state_of (detector_emit d sig s)
                           = (pipe_listeners d sig s)\<lparr>trace := trace s @ effs\<rparr>"
    using detector_emit_frame by blast
  have "wired_detectors ((pipe_listeners d sig s)\<lparr>trace := trace s @ effs\<rparr>)"
    using assms by (auto elim!: wired_detectors_mono)
  moreover have "recorder_bound ((pipe_listeners d sig s)\<lparr>trace := trace s @ effs\<rparr>)"
    using assms by (simp add: recorder_bound_def)
  ultimately show ?thesis
    using assms Raise by (simp add: e)
qed

lemma run_invariant: "recorder_bound (run acts) \<and> wired_detectors (run acts)"
proof (induction acts rule: rev_induct)
  case Nil
  show ?case by (simp add: run_def init_def recorder_bound_def wired_detectors_def)
next
  case (snoc a acts)
  then show ?case
    using step_invariant [of "run acts" a] by (simp add: run_def)
qed

lemma run_recorder:
  assumes "lookup (instances (run acts)) this = Some f"
  shows "\<exists>r. audioRecorder (run acts) = Some r"
proof -
  have "instances (run acts) \<noteq> []"
    using assms by (auto simp: lookup_def split: if_splits)
  then show ?thesis
    using run_invariant [of acts] by (auto simp: recorder_bound_def)
qed


subsection \<open>Faults of the detection engine\<close>




subsection \<open>Signals after \<^verbatim>\<open>stop()\<close> and \<^verbatim>\<open>pause()\<close>\<close>

lemma detector_emit_same:
  assumes "instances s' = instances s" and "detectors s' = detectors s"
  shows "thrown (detector_emit d sig s') = thrown (detector_emit d sig s)
       \<and> new_effects s' (state_of (detector_emit d sig s')) = new_effects s (state_of (detector_emit d sig s))"
proof -
  obtain effs err where "detector_emit d sig s = finish (pipe_listeners d sig s) effs err"
    and "detector_emit d sig s' = finish (pipe_listeners d sig s') effs err"
    using detector_emit_rel [OF assms] by blast
  then show ?thesis
    by (simp add: new_effects_def)
qed

text \<open>
  Claim C3, as stated: after \<^verbatim>\<open>stop()\<close>, a signal emitted by the disconnected detector
  produces no event on the listener, and events are observable only up to the next
  \<^verbatim>\<open>stop()\<close> or \<^verbatim>\<open>pause()\<close>. On the code the handlers stay on the detector. After
  construct, \<^verbatim>\<open>start()\<close>, \<^verbatim>\<open>stop()\<close> the listener has emitted nothing, and a hotword signal
  of that detector still makes the listener emit \<^verbatim>\<open>hotword\<close>; the same holds after
  \<^verbatim>\<open>pause()\<close>, which has unpiped the detector.
\<close>

theorem C3_signal_after_stop_is_forwarded:
  "emitted 0 (run [New None None None None, Call Start 0, Call Stop 0]) = []
   \<and> emitted 0 (state_of (detector_emit 0 (Sig_hotword 0 ''snowboy'' [1, 2, 3])
                   (run [New None None None None, Call Start 0, Call Stop 0])))
       = [Hotword 0 ''snowboy'' [1, 2, 3]]
   \<and> map r_piped (recorders (run [New None None None None, Call Start 0, Call Pause 0])) = [[]]
   \<and> emitted 0 (state_of (detector_emit 0 (Sig_hotword 0 ''snowboy'' [1, 2, 3])
                   (run [New None None None None, Call Start 0, Call Pause 0])))
       = [Hotword 0 ''snowboy'' [1, 2, 3]]"
  by (simp add: eval_simps)

text \<open>
  Claim C3, amended: \<^verbatim>\<open>stop()\<close> and \<^verbatim>\<open>pause()\<close> take no handler off any detector and leave
  the detector variable and the instances as they are, whether they return or raise. A
  signal that any detector emits after the call is therefore handled exactly as it would
  have been before the call: the same calls on loggers and the same events on the
  listener, and the same exception if any.
\<close>

theorem C3_stop_leaves_handlers_amended:
  assumes "m = Stop \<or> m = Pause" and "s' = state_of (call m this s)"
  shows "detector s' = detector s \<and> detectors s' = detectors s \<and> instances s' = instances s
       \<and> (\<forall>d sig. thrown (detector_emit d sig s') = thrown (detector_emit d sig s)
              \<and> new_effects s' (state_of (detector_emit d sig s'))
                  = new_effects s (state_of (detector_emit d sig s)))"
proof -
  have frame: "detector s' = detector s \<and> detectors s' = detectors s \<and> instances s' = instances s"
    using stop_pause_frame [OF assms(1), of this s] assms(2) by simp
  then show ?thesis
    using detector_emit_same [of s' s] by simp
qed

theorem C3_witness:
  "thrown (detector_emit 0 (Sig_sound [4, 5]) (run [New None None None None, Call Start 0, Call Stop 0])) = None
   \<and> new_effects (run [New None None None None, Call Start 0, Call Stop 0])
        (state_of (detector_emit 0 (Sig_sound [4, 5]) (run [New None None None None, Call Start 0, Call Stop 0])))
       = [Emit 0 (Sound [4, 5])]
   \<and> new_effects (run [New None None None None, Call Start 0, Call Pause 0])
        (state_of (detector_emit 0 Sig_silence (run [New None None None None, Call Start 0, Call Pause 0])))
       = [Emit 0 Silence]"
  using C3_stop_leaves_handlers_amended
    [of Stop "run [New None None None None, Call Start 0, Call Stop 0]" 0
        "run [New None None None None, Call Start 0]"]
    C3_stop_leaves_handlers_amended
    [of Pause "run [New None None None None, Call Start 0, Call Pause 0]" 0
        "run [New None None None None, Call Start 0]"]
  by (simp add: eval_simps)

subsection \<open>State shared by all instances\<close>

lemma call_shared:
  "recorders (state_of (call m j s)) = recorders (state_of (call m k s))
   \<and> detector (state_of (call m j s)) = detector (state_of (call m k s))
   \<and> map d_options (detectors (state_of (call m j s))) = map d_options (detectors (state_of (call m k s)))"
  by (cases m; cases "audioRecorder s")
     (auto simp: start_unfold resume_unfold stop_unfold pause_unfold setupDetector_eq
        split: option.splits)

text \<open>
  Claim C2, as stated: the recorder, detector and configuration belong to one instance,
  and constructing or operating a second instance leaves those of the first unchanged.
  On the code they are module variables. After a first listener is built for the program
  \<^verbatim>\<open>arecord\<close> and a second one for \<^verbatim>\<open>sox\<close> with its own resource, the recorder
  variable holds the second recorder and the shared options object holds the second
  resource; \<^verbatim>\<open>start()\<close> on the first listener then starts the second recorder and leaves
  the first one untouched.
\<close>

theorem C2_second_instance_rebinds_shared_state:
  "audioRecorder (run [New None None (Some ''arecord'') None]) = Some 0
   \<and> audioRecorder (run [New None None (Some ''arecord'') None,
                         New None (Some [''resource'' \<mapsto> Str ''other.res'']) (Some ''sox'') None]) = Some 1
   \<and> objects (run [New None None (Some ''arecord'') None]) DefaultDetector ''resource''
       = Some (Str ''./node_modules/snowboy/resources/common.res'')
   \<and> objects (run [New None None (Some ''arecord'') None,
                   New None (Some [''resource'' \<mapsto> Str ''other.res'']) (Some ''sox'') None])
         DefaultDetector ''resource''
       = Some (Str ''other.res'')
   \<and> map (\<lambda>r. (program (r_options r), r_status r))
         (recorders (run [New None None (Some ''arecord'') None,
                          New None (Some [''resource'' \<mapsto> Str ''other.res'']) (Some ''sox'') None,
                          Call Start 0]))
       = [(''arecord'', Created), (''sox'', Recording)]"
  by (simp add: eval_simps defaultDetector_def)

text \<open>
  Claim C2, amended: the recorder, the model collection, the detector and the detector
  options are state of the module, shared by all instances. Constructing an instance
  binds the recorder and the model collection to new objects, points the options at the
  shared \<^verbatim>\<open>defaultDetector\<close> object and keeps the current detector; recorders and detectors
  that exist already stay as they are. A lifecycle method acts on the shared recorder and
  detector whichever instance it is called on. Only what an instance holds itself, its
  logger and its listeners, is left unchanged by constructing or operating another
  instance.
\<close>

theorem C2_state_is_module_level_amended:
  assumes "constructor modelData detectorData recordingProgram lg s = (this, s')"
  shows "audioRecorder s' = Some (length (recorders s))
       \<and> lookup (recorders s) (length (recorders s)) = None
       \<and> models s' = Some (length (model_colls s))
       \<and> lookup (model_colls s) (length (model_colls s)) = None
       \<and> detectorOptions s' = Some DefaultDetector
       \<and> detector s' = detector s
       \<and> detectors s' = detectors s
       \<and> (\<forall>r x. lookup (recorders s) r = Some x \<longrightarrow> lookup (recorders s') r = Some x)
       \<and> (\<forall>j f. lookup (instances s) j = Some f \<longrightarrow> lookup (instances s') j = Some f)
       \<and> (\<forall>m j k. instances (state_of (call m j s')) = instances s'
              \<and> recorders (state_of (call m j s')) = recorders (state_of (call m k s'))
              \<and> detector (state_of (call m j s')) = detector (state_of (call m k s')))"
  using assms call_frame call_shared
  by (auto simp: constructor_eq lookup_append_old)

theorem C2_witness:
  "audioRecorder (run [New None None (Some ''arecord'') (Some 7), New None None (Some ''sox'') None]) = Some 1
   \<and> lookup (instances (run [New None None (Some ''arecord'') (Some 7), New None None (Some ''sox'') None])) 0
       = Some \<lparr>logger = Some 7, listeners = []\<rparr>
   \<and> lookup (recorders (run [New None None (Some ''arecord'') (Some 7), New None None (Some ''sox'') None])) 0
       = lookup (recorders (run [New None None (Some ''arecord'') (Some 7)])) 0"
  using C2_state_is_module_level_amended
    [of None None "Some ''sox''" None "run [New None None (Some ''arecord'') (Some 7)]" 1
        "run [New None None (Some ''arecord'') (Some 7), New None None (Some ''sox'') None]"]
  by (simp add: eval_simps)

subsection \<open>Listeners without a logger\<close>














end
